theory Spec2Isabelle
  imports Main "HOL-Library.Finite_Map"
begin

section \<open>The FA2 NAPLPS contract (fa2-naplps.mligo)\<close>

text \<open>
  The contract is a pure CameLIGO function \<open>main\<close> from a parameter and a storage to
  a list of operations and a new storage. Two things are ambient in the source and are
  explicit here: the caller (\<open>Tezos.get_sender ()\<close>) is the first argument of every
  function that reads it, and \<open>failwith\<close> is the \<open>Inl\<close> branch of a sum type. A
  \<open>nat\<close> of Michelson is unbounded, as \<open>nat\<close> is in HOL. A \<open>big_map\<close> is a finite
  map.
\<close>

subsection \<open>Types\<close>

type_synonym address = string
type_synonym bytes = string
type_synonym token_id = nat

type_synonym ledger = "(address \<times> token_id, nat) fmap"
type_synonym operators = "(address \<times> (address \<times> token_id), unit) fmap"

type_synonym token_info = "(string, bytes) fmap"

record token_metadata_value =
  meta_token_id :: token_id
  token_info :: token_info

type_synonym token_metadata = "(token_id, token_metadata_value) fmap"

record storage =
  ledger :: ledger
  operators :: operators
  token_metadata :: token_metadata
  next_token_id :: token_id

record transfer_destination =
  to_addr :: address
  tx_token_id :: token_id
  amount :: nat

record transfer_param =
  from_addr :: address
  txs :: "transfer_destination list"

record balance_of_request =
  req_owner :: address
  req_token_id :: token_id

record balance_of_response =
  request :: balance_of_request
  balance :: nat

record balance_of_param =
  requests :: "balance_of_request list"
  callback :: address

record update_operator =
  op_owner :: address
  op_operator :: address
  op_token_id :: token_id

datatype update_operator_param =
    Add_operator update_operator
  | Remove_operator update_operator

record mint_param =
  mint_to :: address
  metadata :: token_info

datatype parameter =
    Transfer "transfer_param list"
  | Balance_of balance_of_param
  | Update_operators "update_operator_param list"
  | Mint mint_param

text \<open>
  The only operation the contract emits is \<open>Tezos.transaction responses 0mutez callback\<close>:
  the payload, the amount in mutez and the destination contract.
\<close>

datatype operation = Transaction "balance_of_response list" nat address

text \<open>The three strings the contract fails with.\<close>

datatype error = FA2_NOT_OPERATOR | FA2_INSUFFICIENT_BALANCE | FA2_NOT_OWNER

subsection \<open>The Big_map primitives the contract uses\<close>

definition Big_map_find_opt :: "'k \<Rightarrow> ('k, 'v) fmap \<Rightarrow> 'v option" where
  "Big_map_find_opt k m = fmlookup m k"

definition Big_map_mem :: "'k \<Rightarrow> ('k, 'v) fmap \<Rightarrow> bool" where
  "Big_map_mem k m = (fmlookup m k \<noteq> None)"

definition Big_map_remove :: "'k \<Rightarrow> ('k, 'v) fmap \<Rightarrow> ('k, 'v) fmap" where
  "Big_map_remove k m = fmdrop k m"

definition Big_map_update :: "'k \<Rightarrow> 'v option \<Rightarrow> ('k, 'v) fmap \<Rightarrow> ('k, 'v) fmap" where
  "Big_map_update k vo m = (case vo of None \<Rightarrow> fmdrop k m | Some v \<Rightarrow> fmupd k v m)"

text \<open>
  \<open>List.fold_left\<close> over a step that may fail: the first failure ends the fold, as the
  exception of \<open>failwith\<close> does.
\<close>

fun fold_left :: "('acc \<Rightarrow> 'a \<Rightarrow> error + 'acc) \<Rightarrow> 'acc \<Rightarrow> 'a list \<Rightarrow> error + 'acc" where
  "fold_left f acc [] = Inr acc"
| "fold_left f acc (x # xs) =
     (case f acc x of Inl e \<Rightarrow> Inl e | Inr acc' \<Rightarrow> fold_left f acc' xs)"

subsection \<open>Transfer\<close>

definition nat_or_zero :: "nat option \<Rightarrow> nat" where
  "nat_or_zero opt = (case opt of None \<Rightarrow> 0 | Some n \<Rightarrow> n)"

definition do_transfer ::
  "address \<Rightarrow> storage \<Rightarrow> address \<Rightarrow> transfer_destination \<Rightarrow> error + storage" where
  "do_transfer sender s from_a tx =
     (if sender \<noteq> from_a \<and> \<not> Big_map_mem (from_a, (sender, tx_token_id tx)) (operators s)
      then Inl FA2_NOT_OPERATOR
      else
        let from_key = (from_a, tx_token_id tx);
            from_bal = nat_or_zero (Big_map_find_opt from_key (ledger s))
        in if from_bal < amount tx then Inl FA2_INSUFFICIENT_BALANCE
           else
             let new_from = nat \<bar>int from_bal - int (amount tx)\<bar>;
                 ledger1 =
                   (if new_from = 0
                    then Big_map_remove from_key (ledger s)
                    else Big_map_update from_key (Some new_from) (ledger s));
                 to_key = (to_addr tx, tx_token_id tx);
                 to_bal = nat_or_zero (Big_map_find_opt to_key ledger1);
                 ledger2 = Big_map_update to_key (Some (to_bal + amount tx)) ledger1
             in Inr (s\<lparr>ledger := ledger2\<rparr>))"

definition apply_txs :: "address \<Rightarrow> storage \<Rightarrow> transfer_param \<Rightarrow> error + storage" where
  "apply_txs sender s param =
     fold_left (\<lambda>acc tx. do_transfer sender acc (from_addr param) tx) s (txs param)"

definition transfer ::
  "address \<Rightarrow> transfer_param list \<Rightarrow> storage \<Rightarrow> error + (operation list \<times> storage)" where
  "transfer sender params s =
     (case fold_left (\<lambda>acc p. apply_txs sender acc p) s params of
        Inl e \<Rightarrow> Inl e
      | Inr s' \<Rightarrow> Inr ([], s'))"

subsection \<open>Balance_of\<close>

definition balance_of :: "balance_of_param \<Rightarrow> storage \<Rightarrow> operation list \<times> storage" where
  "balance_of param s =
     (let ledger0 = ledger s;
          responses =
            map (\<lambda>req.
                   let bal = nat_or_zero
                               (Big_map_find_opt (req_owner req, req_token_id req) ledger0)
                   in \<lparr>request = req, balance = bal\<rparr>)
                (requests param);
          op = Transaction responses 0 (callback param)
      in ([op], s))"

subsection \<open>Update_operators\<close>

fun apply_operator_update ::
  "address \<Rightarrow> operators \<Rightarrow> update_operator_param \<Rightarrow> error + operators" where
  "apply_operator_update sender ops (Add_operator op) =
     (if sender \<noteq> op_owner op then Inl FA2_NOT_OWNER
      else Inr (Big_map_update (op_owner op, (op_operator op, op_token_id op)) (Some ()) ops))"
| "apply_operator_update sender ops (Remove_operator op) =
     (if sender \<noteq> op_owner op then Inl FA2_NOT_OWNER
      else Inr (Big_map_remove (op_owner op, (op_operator op, op_token_id op)) ops))"

definition update_operators ::
  "address \<Rightarrow> update_operator_param list \<Rightarrow> storage \<Rightarrow> error + (operation list \<times> storage)"
  where
  "update_operators sender params s =
     (case fold_left (\<lambda>acc p. apply_operator_update sender acc p) (operators s) params of
        Inl e \<Rightarrow> Inl e
      | Inr ops \<Rightarrow> Inr ([], s\<lparr>operators := ops\<rparr>))"

subsection \<open>Mint\<close>

definition mint :: "mint_param \<Rightarrow> storage \<Rightarrow> operation list \<times> storage" where
  "mint param s =
     (let token_id = next_token_id s;
          ledger1 = Big_map_update (mint_to param, token_id) (Some 1) (ledger s);
          meta = \<lparr>meta_token_id = token_id, token_info = metadata param\<rparr>;
          token_metadata1 = Big_map_update token_id (Some meta) (token_metadata s)
      in ([], s\<lparr>ledger := ledger1,
                token_metadata := token_metadata1,
                next_token_id := token_id + 1\<rparr>))"

subsection \<open>Main\<close>

fun main :: "address \<Rightarrow> parameter \<Rightarrow> storage \<Rightarrow> error + (operation list \<times> storage)" where
  "main sender (Transfer params) s = transfer sender params s"
| "main sender (Balance_of param) s = Inr (balance_of param s)"
| "main sender (Update_operators params) s = update_operators sender params s"
| "main sender (Mint param) s = Inr (mint param s)"

text \<open>
  What the chain does with a call: when \<open>main\<close> fails, the operation is aborted, no
  operation is emitted and the contract keeps the storage it had; when it returns, the
  returned storage replaces the old one. The result is the error (if any), the emitted
  operations and the storage after the call.
\<close>

definition invoke ::
  "address \<Rightarrow> parameter \<Rightarrow> storage \<Rightarrow> error option \<times> operation list \<times> storage" where
  "invoke sender param s =
     (case main sender param s of
        Inl e \<Rightarrow> (Some e, [], s)
      | Inr (ops, s') \<Rightarrow> (None, ops, s'))"

subsection \<open>Notions of the specification\<close>

text \<open>
  The storage the contract is originated with, \<open>(Pair (Pair {} {}) (Pair {} 0))\<close>, and
  the storage after one mint to \<open>A\<close> from there (the scenario of the specification).
\<close>

definition initial_storage :: storage where
  "initial_storage =
     \<lparr>ledger = fmempty, operators = fmempty, token_metadata = fmempty, next_token_id = 0\<rparr>"

definition naplps_payload :: token_info where
  "naplps_payload = fmupd ''naplps'' [CHR 0xAB] fmempty"

definition one_token_storage :: storage where
  "one_token_storage =
     \<lparr>ledger = fmupd (''A'', 0) 1 fmempty,
      operators = fmempty,
      token_metadata =
        fmupd 0 \<lparr>meta_token_id = 0, token_info = naplps_payload\<rparr> fmempty,
      next_token_id = 1\<rparr>"

text \<open>The sum of the ledger's quantities for one token-id, over the entries present.\<close>

definition total_supply :: "ledger \<Rightarrow> token_id \<Rightarrow> nat" where
  "total_supply L t =
     (\<Sum>k \<in> fmdom' L. if snd k = t then nat_or_zero (Big_map_find_opt k L) else 0)"

text \<open>
  The triples of a Transfer call in the order given: the groups in order, and the triples
  of each group in order, each with the source owner of its group.
\<close>

fun triples :: "transfer_param list \<Rightarrow> (address \<times> transfer_destination) list" where
  "triples [] = []"
| "triples (p # ps) = map (\<lambda>tx. (from_addr p, tx)) (txs p) @ triples ps"

text \<open>
  Processing a list of triples one after the other, each on the storage the one before
  produced, stopping at the first that fails.
\<close>

fun run_triples ::
  "address \<Rightarrow> storage \<Rightarrow> (address \<times> transfer_destination) list \<Rightarrow> error + storage" where
  "run_triples sender s [] = Inr s"
| "run_triples sender s ((f, tx) # rest) =
     (case do_transfer sender s f tx of
        Inl e \<Rightarrow> Inl e
      | Inr s1 \<Rightarrow> run_triples sender s1 rest)"

text \<open>The ledger invariant of the specification: every entry present holds a positive quantity.\<close>

definition ledger_positive :: "ledger \<Rightarrow> bool" where
  "ledger_positive L = fmpred (\<lambda>k q. 0 < q) L"

text \<open>The owner a directive of Update_operators names.\<close>

fun directive_owner :: "update_operator_param \<Rightarrow> address" where
  "directive_owner (Add_operator op) = op_owner op"
| "directive_owner (Remove_operator op) = op_owner op"

section \<open>Properties\<close>

subsection \<open>A Transfer call is a run over its triples\<close>

lemma run_triples_append:
  "run_triples sender s (xs @ ys) =
     (case run_triples sender s xs of
        Inl e \<Rightarrow> Inl e
      | Inr s1 \<Rightarrow> run_triples sender s1 ys)"
  by (induction xs arbitrary: s) (auto split: sum.splits)

lemma fold_left_do_transfer:
  "fold_left (\<lambda>acc tx. do_transfer sender acc f tx) s ts =
     run_triples sender s (map (\<lambda>tx. (f, tx)) ts)"
  by (induction ts arbitrary: s) (auto split: sum.splits)

lemma fold_left_apply_txs:
  "fold_left (\<lambda>acc p. apply_txs sender acc p) s params =
     run_triples sender s (triples params)"
proof (induction params arbitrary: s)
  case Nil
  show ?case by simp
next
  case (Cons p ps)
  have "apply_txs sender s p = run_triples sender s (map (\<lambda>tx. (from_addr p, tx)) (txs p))"
    by (simp add: apply_txs_def fold_left_do_transfer)
  then show ?case
    by (simp add: run_triples_append Cons.IH split: sum.splits)
qed

lemma transfer_run_triples:
  "transfer sender params s =
     (case run_triples sender s (triples params) of
        Inl e \<Rightarrow> Inl e
      | Inr s' \<Rightarrow> Inr ([], s'))"
  by (simp add: transfer_def fold_left_apply_txs)

subsection \<open>What one triple does\<close>

lemma do_transfer_Inr_iff:
  "do_transfer sender s f tx = Inr s' \<longleftrightarrow>
     (sender = f \<or> Big_map_mem (f, (sender, tx_token_id tx)) (operators s)) \<and>
     amount tx \<le> nat_or_zero (Big_map_find_opt (f, tx_token_id tx) (ledger s)) \<and>
     s' = s\<lparr>ledger :=
            (let b = nat_or_zero (fmlookup (ledger s) (f, tx_token_id tx)) - amount tx;
                 L1 = (if b = 0 then fmdrop (f, tx_token_id tx) (ledger s)
                       else fmupd (f, tx_token_id tx) b (ledger s))
             in fmupd (to_addr tx, tx_token_id tx)
                  (nat_or_zero (fmlookup L1 (to_addr tx, tx_token_id tx)) + amount tx) L1)\<rparr>"
proof -
  have diff: "nat (int b - int a) = b - a" for a b :: nat
    by simp
  show ?thesis
    unfolding do_transfer_def Big_map_find_opt_def Big_map_update_def Big_map_remove_def
    by (auto simp: Let_def diff not_less)
qed

lemma do_transfer_Inl_iff:
  "do_transfer sender s f tx = Inl e \<longleftrightarrow>
     (if sender \<noteq> f \<and> \<not> Big_map_mem (f, (sender, tx_token_id tx)) (operators s)
      then e = FA2_NOT_OPERATOR
      else nat_or_zero (Big_map_find_opt (f, tx_token_id tx) (ledger s)) < amount tx
           \<and> e = FA2_INSUFFICIENT_BALANCE)"
  unfolding do_transfer_def by (auto simp: Let_def)

lemma do_transfer_ledger_at:
  assumes "do_transfer sender s f tx = Inr s'"
  shows "nat_or_zero (fmlookup (ledger s') k)
           + (if k = (f, tx_token_id tx) then amount tx else 0)
       = nat_or_zero (fmlookup (ledger s) k)
           + (if k = (to_addr tx, tx_token_id tx) then amount tx else 0)"
proof -
  from assms have le: "amount tx \<le> nat_or_zero (fmlookup (ledger s) (f, tx_token_id tx))"
    and s': "s' = s\<lparr>ledger :=
            (let b = nat_or_zero (fmlookup (ledger s) (f, tx_token_id tx)) - amount tx;
                 L1 = (if b = 0 then fmdrop (f, tx_token_id tx) (ledger s)
                       else fmupd (f, tx_token_id tx) b (ledger s))
             in fmupd (to_addr tx, tx_token_id tx)
                  (nat_or_zero (fmlookup L1 (to_addr tx, tx_token_id tx)) + amount tx) L1)\<rparr>"
    by (simp_all add: do_transfer_Inr_iff Big_map_find_opt_def)
  show ?thesis using le unfolding s'
    by (auto simp: Let_def nat_or_zero_def)
qed

lemma do_transfer_ledger_dom:
  assumes "do_transfer sender s f tx = Inr s'"
  shows "fmdom' (ledger s')
           \<subseteq> fmdom' (ledger s) \<union> {(f, tx_token_id tx), (to_addr tx, tx_token_id tx)}"
  using assms unfolding do_transfer_Inr_iff
  by (auto simp: Let_def split: if_splits)

lemma do_transfer_frame:
  assumes "do_transfer sender s f tx = Inr s'"
  shows "operators s' = operators s" "token_metadata s' = token_metadata s"
    "next_token_id s' = next_token_id s"
  using assms unfolding do_transfer_Inr_iff by simp_all

lemma run_triples_frame:
  "run_triples sender s xs = Inr s' \<Longrightarrow>
   operators s' = operators s \<and> token_metadata s' = token_metadata s
   \<and> next_token_id s' = next_token_id s"
proof (induction xs arbitrary: s)
  case Nil
  then show ?case by simp
next
  case (Cons x xs)
  obtain f tx where x: "x = (f, tx)" by (cases x)
  from Cons.prems obtain s1 where
    step: "do_transfer sender s f tx = Inr s1" and rest: "run_triples sender s1 xs = Inr s'"
    by (auto simp: x split: sum.splits)
  from Cons.IH [OF rest] do_transfer_frame [OF step] show ?case by simp
qed

subsection \<open>Conservation\<close>

lemma total_supply_over:
  assumes "finite S" "fmdom' L \<subseteq> S"
  shows "total_supply L t = (\<Sum>k \<in> S. if snd k = t then nat_or_zero (fmlookup L k) else 0)"
  unfolding total_supply_def Big_map_find_opt_def
  using assms
  by (intro sum.mono_neutral_left)
     (auto simp: nat_or_zero_def fmlookup_dom'_iff split: option.splits)

lemma do_transfer_total_supply:
  assumes ok: "do_transfer sender s f tx = Inr s'"
  shows "total_supply (ledger s') t = total_supply (ledger s) t"
proof -
  let ?fk = "(f, tx_token_id tx)" and ?tk = "(to_addr tx, tx_token_id tx)"
  let ?S = "fmdom' (ledger s) \<union> {?fk, ?tk}"
  let ?w = "\<lambda>L k. if snd k = t then nat_or_zero (fmlookup L k) else (0::nat)"
  let ?d = "\<lambda>key k. if k = key \<and> snd k = t then amount tx else (0::nat)"
  let ?a = "if tx_token_id tx = t then amount tx else (0::nat)"
  have fin: "finite ?S" by simp
  have pw: "?w (ledger s') k + ?d ?fk k = ?w (ledger s) k + ?d ?tk k" for k
    using do_transfer_ledger_at [OF ok, of k] by (auto split: if_splits)
  have moved: "(\<Sum>k\<in>?S. ?w (ledger s') k) + (\<Sum>k\<in>?S. ?d ?fk k)
             = (\<Sum>k\<in>?S. ?w (ledger s) k) + (\<Sum>k\<in>?S. ?d ?tk k)"
    unfolding sum.distrib [symmetric] by (rule sum.cong [OF refl pw])
  have "(\<Sum>k\<in>?S. ?d ?fk k) = (\<Sum>k\<in>?S. if k = ?fk then ?a else 0)"
    by (rule sum.cong) auto
  then have debit: "(\<Sum>k\<in>?S. ?d ?fk k) = ?a"
    using fin by (simp del: Un_insert_right)
  have "(\<Sum>k\<in>?S. ?d ?tk k) = (\<Sum>k\<in>?S. if k = ?tk then ?a else 0)"
    by (rule sum.cong) auto
  then have credit: "(\<Sum>k\<in>?S. ?d ?tk k) = ?a"
    using fin by (simp del: Un_insert_right)
  from moved debit credit
  have "(\<Sum>k\<in>?S. ?w (ledger s') k) = (\<Sum>k\<in>?S. ?w (ledger s) k)" by simp
  moreover have "total_supply (ledger s') t = (\<Sum>k\<in>?S. ?w (ledger s') k)"
    by (rule total_supply_over [OF fin do_transfer_ledger_dom [OF ok]])
  moreover have "total_supply (ledger s) t = (\<Sum>k\<in>?S. ?w (ledger s) k)"
    by (rule total_supply_over [OF fin]) auto
  ultimately show ?thesis by simp
qed

lemma run_triples_total_supply:
  "run_triples sender s xs = Inr s' \<Longrightarrow> total_supply (ledger s') t = total_supply (ledger s) t"
proof (induction xs arbitrary: s)
  case Nil
  then show ?case by simp
next
  case (Cons x xs)
  obtain f tx where x: "x = (f, tx)" by (cases x)
  from Cons.prems obtain s1 where
    step: "do_transfer sender s f tx = Inr s1" and rest: "run_triples sender s1 xs = Inr s'"
    by (auto simp: x split: sum.splits)
  from Cons.IH [OF rest] do_transfer_total_supply [OF step] show ?case by simp
qed

text \<open>
  C1. A Transfer call that succeeds, that is, one in which every triple is authorized
  and covered by its source's balance when it is processed, leaves the sum of the ledger's
  quantities of every token-id as it was.
\<close>

theorem transfer_conserves_supply:
  "transfer sender params s = Inr (ops, s') \<Longrightarrow>
   total_supply (ledger s') t = total_supply (ledger s) t"
  by (auto simp: transfer_run_triples split: sum.splits dest: run_triples_total_supply)

theorem transfer_conserves_supply_witness:
  "transfer ''A''
     [\<lparr>from_addr = ''A'', txs = [\<lparr>to_addr = ''B'', tx_token_id = 0, amount = 1\<rparr>]\<rparr>]
     one_token_storage
   = Inr ([], one_token_storage\<lparr>ledger := fmupd (''B'', 0) 1 fmempty\<rparr>)
   \<and> total_supply (ledger (one_token_storage\<lparr>ledger := fmupd (''B'', 0) 1 fmempty\<rparr>)) 0
     = total_supply (ledger one_token_storage) 0"
proof -
  have run: "transfer ''A''
     [\<lparr>from_addr = ''A'', txs = [\<lparr>to_addr = ''B'', tx_token_id = 0, amount = 1\<rparr>]\<rparr>]
     one_token_storage
   = Inr ([], one_token_storage\<lparr>ledger := fmupd (''B'', 0) 1 fmempty\<rparr>)"
    by (simp add: transfer_def apply_txs_def do_transfer_def one_token_storage_def
          Big_map_find_opt_def Big_map_update_def Big_map_remove_def nat_or_zero_def
          fmdrop_fmupd_same)
  from run transfer_conserves_supply [OF run, of 0] show ?thesis by simp
qed

subsection \<open>Failures of a Transfer call\<close>

lemma transfer_fails_at:
  assumes "triples params = pre @ (f, tx) # post"
    and "run_triples sender s pre = Inr s1"
    and "do_transfer sender s1 f tx = Inl e"
  shows "transfer sender params s = Inl e"
  using assms by (simp add: transfer_run_triples run_triples_append)

text \<open>
  C2, as amended. When the triples before some triple of a Transfer call all pass their
  checks, and that triple passes the authorization check but asks for more than its source
  holds at that point (an absent entry reads as 0), the call fails with
  \<open>FA2_INSUFFICIENT_BALANCE\<close> and the contract keeps the storage it had before the call.
\<close>

theorem transfer_insufficient_balance:
  assumes "triples params = pre @ (f, tx) # post"
    and "run_triples sender s pre = Inr s1"
    and "sender = f \<or> Big_map_mem (f, (sender, tx_token_id tx)) (operators s1)"
    and "nat_or_zero (Big_map_find_opt (f, tx_token_id tx) (ledger s1)) < amount tx"
  shows "transfer sender params s = Inl FA2_INSUFFICIENT_BALANCE
       \<and> invoke sender (Transfer params) s = (Some FA2_INSUFFICIENT_BALANCE, [], s)"
proof -
  from assms(3,4) have "do_transfer sender s1 f tx = Inl FA2_INSUFFICIENT_BALANCE"
    by (simp add: do_transfer_Inl_iff)
  from transfer_fails_at [OF assms(1,2) this] show ?thesis
    by (simp add: invoke_def)
qed

theorem transfer_insufficient_balance_witness:
  "triples [\<lparr>from_addr = ''A'', txs = [\<lparr>to_addr = ''B'', tx_token_id = 0, amount = 1\<rparr>,
                                        \<lparr>to_addr = ''C'', tx_token_id = 0, amount = 1\<rparr>]\<rparr>]
     = [(''A'', \<lparr>to_addr = ''B'', tx_token_id = 0, amount = 1\<rparr>)]
       @ (''A'', \<lparr>to_addr = ''C'', tx_token_id = 0, amount = 1\<rparr>) # []
   \<and> run_triples ''A'' one_token_storage [(''A'', \<lparr>to_addr = ''B'', tx_token_id = 0, amount = 1\<rparr>)]
     = Inr (one_token_storage\<lparr>ledger := fmupd (''B'', 0) 1 fmempty\<rparr>)
   \<and> nat_or_zero (Big_map_find_opt (''A'', 0)
        (ledger (one_token_storage\<lparr>ledger := fmupd (''B'', 0) 1 fmempty\<rparr>))) < (1::nat)
   \<and> invoke ''A''
        (Transfer [\<lparr>from_addr = ''A'', txs = [\<lparr>to_addr = ''B'', tx_token_id = 0, amount = 1\<rparr>,
                                        \<lparr>to_addr = ''C'', tx_token_id = 0, amount = 1\<rparr>]\<rparr>])
        one_token_storage
     = (Some FA2_INSUFFICIENT_BALANCE, [], one_token_storage)"
proof -
  let ?t1 = "\<lparr>to_addr = ''B'', tx_token_id = 0, amount = 1\<rparr>"
  let ?t2 = "\<lparr>to_addr = ''C'', tx_token_id = 0, amount = 1\<rparr>"
  let ?s1 = "one_token_storage\<lparr>ledger := fmupd (''B'', 0) 1 fmempty\<rparr>"
  have h1: "triples [\<lparr>from_addr = ''A'', txs = [?t1, ?t2]\<rparr>] = [(''A'', ?t1)] @ (''A'', ?t2) # []"
    by simp
  have h2: "run_triples ''A'' one_token_storage [(''A'', ?t1)] = Inr ?s1"
    by (simp add: do_transfer_def one_token_storage_def Big_map_find_opt_def
          Big_map_update_def Big_map_remove_def nat_or_zero_def fmdrop_fmupd_same)
  have h3: "''A'' = ''A'' \<or> Big_map_mem (''A'', (''A'', tx_token_id ?t2)) (operators ?s1)"
    by simp
  have h4: "nat_or_zero (Big_map_find_opt (''A'', tx_token_id ?t2) (ledger ?s1)) < amount ?t2"
    by (simp add: Big_map_find_opt_def nat_or_zero_def)
  from transfer_insufficient_balance [OF h1 h2 h3 h4] h1 h2 h4 show ?thesis
    by simp
qed

text \<open>
  C2 as stated does not ask the overdrawing triple to be authorized. The authorization
  check comes first: a caller \<open>C\<close> who is neither \<open>A\<close> nor an operator of \<open>A\<close>, asking
  for more than \<open>A\<close> holds, gets \<open>FA2_NOT_OPERATOR\<close>.
\<close>

theorem insufficient_balance_counterexample:
  "nat_or_zero (Big_map_find_opt (''A'', 0) (ledger initial_storage)) < (1::nat)
   \<and> invoke ''C''
        (Transfer [\<lparr>from_addr = ''A'', txs = [\<lparr>to_addr = ''B'', tx_token_id = 0, amount = 1\<rparr>]\<rparr>])
        initial_storage
     = (Some FA2_NOT_OPERATOR, [], initial_storage)"
  by (simp add: invoke_def transfer_def apply_txs_def do_transfer_def initial_storage_def
        Big_map_find_opt_def Big_map_mem_def nat_or_zero_def)

text \<open>
  C3, as amended. For a triple of a Transfer call whose earlier triples all pass their
  checks: if the caller is the source owner of the group, or the operator store holds
  (source owner, (caller, token-id)), then the triple does not fail with
  \<open>FA2_NOT_OPERATOR\<close>; otherwise the call fails with \<open>FA2_NOT_OPERATOR\<close> and the
  contract keeps the storage it had before the call.
\<close>

theorem transfer_authorization:
  assumes "triples params = pre @ (f, tx) # post"
    and "run_triples sender s pre = Inr s1"
  shows "if sender = f \<or> Big_map_mem (f, (sender, tx_token_id tx)) (operators s)
         then do_transfer sender s1 f tx \<noteq> Inl FA2_NOT_OPERATOR
         else transfer sender params s = Inl FA2_NOT_OPERATOR
              \<and> invoke sender (Transfer params) s = (Some FA2_NOT_OPERATOR, [], s)"
proof -
  have ops: "operators s1 = operators s"
    using run_triples_frame [OF assms(2)] by simp
  show ?thesis
  proof (cases "sender = f \<or> Big_map_mem (f, (sender, tx_token_id tx)) (operators s)")
    case True
    then show ?thesis by (auto simp: do_transfer_Inl_iff ops)
  next
    case False
    then have "do_transfer sender s1 f tx = Inl FA2_NOT_OPERATOR"
      by (simp add: do_transfer_Inl_iff ops)
    from transfer_fails_at [OF assms this] False show ?thesis
      by (simp add: invoke_def)
  qed
qed

theorem transfer_authorization_witness:
  "do_transfer ''A'' one_token_storage ''A'' \<lparr>to_addr = ''B'', tx_token_id = 0, amount = 1\<rparr>
     \<noteq> Inl FA2_NOT_OPERATOR
   \<and> invoke ''A''
        (Transfer [\<lparr>from_addr = ''A'', txs = [\<lparr>to_addr = ''B'', tx_token_id = 0, amount = 1\<rparr>]\<rparr>,
                   \<lparr>from_addr = ''B'', txs = [\<lparr>to_addr = ''A'', tx_token_id = 0, amount = 1\<rparr>]\<rparr>])
        one_token_storage
     = (Some FA2_NOT_OPERATOR, [], one_token_storage)"
proof -
  let ?t1 = "\<lparr>to_addr = ''B'', tx_token_id = 0, amount = 1\<rparr>"
  let ?t2 = "\<lparr>to_addr = ''A'', tx_token_id = 0, amount = 1\<rparr>"
  let ?ps = "[\<lparr>from_addr = ''A'', txs = [?t1]\<rparr>, \<lparr>from_addr = ''B'', txs = [?t2]\<rparr>]"
  let ?s1 = "one_token_storage\<lparr>ledger := fmupd (''B'', 0) 1 fmempty\<rparr>"
  have a1: "triples ?ps = [] @ (''A'', ?t1) # [(''B'', ?t2)]" by simp
  have a2: "run_triples ''A'' one_token_storage [] = Inr one_token_storage" by simp
  have b1: "triples ?ps = [(''A'', ?t1)] @ (''B'', ?t2) # []" by simp
  have b2: "run_triples ''A'' one_token_storage [(''A'', ?t1)] = Inr ?s1"
    by (simp add: do_transfer_def one_token_storage_def Big_map_find_opt_def
          Big_map_update_def Big_map_remove_def nat_or_zero_def fmdrop_fmupd_same)
  have nb: "\<not> (''A'' = ''B'' \<or> Big_map_mem (''B'', (''A'', tx_token_id ?t2)) (operators one_token_storage))"
    by (simp add: Big_map_mem_def one_token_storage_def)
  from transfer_authorization [OF a1 a2] transfer_authorization [OF b1 b2] nb
  show ?thesis by simp
qed

text \<open>
  C3 as stated holds for every triple of the call. A triple that is not authorized may
  come after one that fails its balance check, and then the call fails with
  \<open>FA2_INSUFFICIENT_BALANCE\<close>.
\<close>

theorem not_operator_counterexample:
  "\<not> (''A'' = ''B'' \<or> Big_map_mem (''B'', (''A'', 0)) (operators initial_storage))
   \<and> invoke ''A''
        (Transfer [\<lparr>from_addr = ''A'', txs = [\<lparr>to_addr = ''B'', tx_token_id = 0, amount = 1\<rparr>]\<rparr>,
                   \<lparr>from_addr = ''B'', txs = [\<lparr>to_addr = ''A'', tx_token_id = 0, amount = 0\<rparr>]\<rparr>])
        initial_storage
     = (Some FA2_INSUFFICIENT_BALANCE, [], initial_storage)"
  by (simp add: invoke_def transfer_def apply_txs_def do_transfer_def initial_storage_def
        Big_map_find_opt_def Big_map_mem_def nat_or_zero_def)

subsection \<open>Positive quantities\<close>

text \<open>
  C4. The debit removes an entry that reaches 0; the credit stores whatever the sum is.
  A transfer of amount 0 to an owner with no entry for the token succeeds and stores an
  entry of quantity 0, from a ledger in which every quantity was positive.
\<close>

theorem zero_amount_transfer_stores_zero:
  "ledger_positive (ledger one_token_storage)
   \<and> transfer ''A''
        [\<lparr>from_addr = ''A'', txs = [\<lparr>to_addr = ''B'', tx_token_id = 0, amount = 0\<rparr>]\<rparr>]
        one_token_storage
     = Inr ([], one_token_storage\<lparr>ledger := fmupd (''B'', 0) 0 (ledger one_token_storage)\<rparr>)
   \<and> fmlookup (fmupd (''B'', 0) 0 (ledger one_token_storage)) (''B'', 0) = Some 0
   \<and> \<not> ledger_positive (fmupd (''B'', 0) 0 (ledger one_token_storage))"
proof -
  have "ledger_positive (ledger one_token_storage)"
    by (auto simp: ledger_positive_def one_token_storage_def)
  moreover have "transfer ''A''
        [\<lparr>from_addr = ''A'', txs = [\<lparr>to_addr = ''B'', tx_token_id = 0, amount = 0\<rparr>]\<rparr>]
        one_token_storage
     = Inr ([], one_token_storage\<lparr>ledger := fmupd (''B'', 0) 0 (ledger one_token_storage)\<rparr>)"
    by (simp add: transfer_def apply_txs_def do_transfer_def
        one_token_storage_def Big_map_find_opt_def Big_map_update_def Big_map_remove_def
        nat_or_zero_def)
  moreover have "\<not> ledger_positive (fmupd (''B'', 0) 0 (ledger one_token_storage))"
    unfolding ledger_positive_def using fmpred_updD by fastforce
  ultimately show ?thesis by simp
qed

lemma do_transfer_keeps_positive:
  assumes pos: "ledger_positive (ledger s)"
    and ok: "do_transfer sender s f tx = Inr s'"
    and amt: "0 < amount tx"
  shows "ledger_positive (ledger s')"
proof -
  from ok have s': "s' = s\<lparr>ledger :=
            (let b = nat_or_zero (fmlookup (ledger s) (f, tx_token_id tx)) - amount tx;
                 L1 = (if b = 0 then fmdrop (f, tx_token_id tx) (ledger s)
                       else fmupd (f, tx_token_id tx) b (ledger s))
             in fmupd (to_addr tx, tx_token_id tx)
                  (nat_or_zero (fmlookup L1 (to_addr tx, tx_token_id tx)) + amount tx) L1)\<rparr>"
    by (simp add: do_transfer_Inr_iff)
  from pos have old: "0 < q" if "fmlookup (ledger s) k = Some q" for k q
    using that fmpredD [of "\<lambda>k q. 0 < q" "ledger s" k q]
    by (simp add: ledger_positive_def)
  show ?thesis
    unfolding s' ledger_positive_def fmpred_iff
    using amt old by (auto simp: Let_def split: if_splits)
qed

lemma mint_keeps_positive:
  "ledger_positive (ledger s) \<Longrightarrow> ledger_positive (ledger (snd (mint p s)))"
  by (auto simp: ledger_positive_def mint_def Let_def Big_map_update_def)

subsection \<open>Mint\<close>

text \<open>
  C5. A Mint call never fails. With counter \<open>n\<close>, destination \<open>d\<close> and payload \<open>m\<close> it
  stores quantity 1 at \<open>(d, n)\<close> and touches no other ledger entry, stores
  \<open>{token_id = n, token_info = m}\<close> at \<open>n\<close> in the metadata store, and sets the counter to
  \<open>n + 1\<close>. A second mint takes token-id \<open>n + 1\<close>: after both, the two ledger entries hold
  1 each, both metadata entries are present and the counter is \<open>n + 2\<close>.
\<close>

theorem mint_allocates:
  "mint p s =
     ([], s\<lparr>ledger := fmupd (mint_to p, next_token_id s) 1 (ledger s),
            token_metadata :=
              fmupd (next_token_id s)
                \<lparr>meta_token_id = next_token_id s, token_info = metadata p\<rparr> (token_metadata s),
            next_token_id := next_token_id s + 1\<rparr>)
   \<and> invoke sender (Mint p) s = (None, mint p s)
   \<and> fmlookup (ledger (snd (mint p s))) (mint_to p, next_token_id s) = Some 1
   \<and> fmdrop (mint_to p, next_token_id s) (ledger (snd (mint p s)))
       = fmdrop (mint_to p, next_token_id s) (ledger s)
   \<and> fmlookup (token_metadata (snd (mint p s))) (next_token_id s)
       = Some \<lparr>meta_token_id = next_token_id s, token_info = metadata p\<rparr>
   \<and> next_token_id (snd (mint p s)) = next_token_id s + 1
   \<and> next_token_id s \<noteq> next_token_id s + 1
   \<and> fmlookup (ledger (snd (mint q (snd (mint p s))))) (mint_to p, next_token_id s) = Some 1
   \<and> fmlookup (ledger (snd (mint q (snd (mint p s))))) (mint_to q, next_token_id s + 1) = Some 1
   \<and> fmlookup (token_metadata (snd (mint q (snd (mint p s))))) (next_token_id s)
       = Some \<lparr>meta_token_id = next_token_id s, token_info = metadata p\<rparr>
   \<and> fmlookup (token_metadata (snd (mint q (snd (mint p s))))) (next_token_id s + 1)
       = Some \<lparr>meta_token_id = next_token_id s + 1, token_info = metadata q\<rparr>
   \<and> next_token_id (snd (mint q (snd (mint p s)))) = next_token_id s + 2"
  by (simp add: mint_def invoke_def Big_map_update_def Let_def fmdrop_fmupd_same)

subsection \<open>Update_operators\<close>

lemma fold_left_not_owner:
  "d \<in> set ds \<Longrightarrow> sender \<noteq> directive_owner d \<Longrightarrow>
   fold_left (\<lambda>acc p. apply_operator_update sender acc p) ops ds = Inl FA2_NOT_OWNER"
proof (induction ds arbitrary: ops)
  case Nil
  then show ?case by simp
next
  case (Cons x xs)
  show ?case
  proof (cases "sender = directive_owner x")
    case True
    with Cons.prems have "d \<in> set xs" by auto
    from Cons.IH [OF this Cons.prems(2)] True show ?thesis
      by (cases x) simp_all
  next
    case False
    then show ?thesis by (cases x) simp_all
  qed
qed

text \<open>
  C6. If some directive of an Update_operators call, of either kind, names an owner other
  than the caller, the call fails with \<open>FA2_NOT_OWNER\<close> and the contract keeps the
  storage it had. A directive is applied only when the caller is its named owner, and a
  call that succeeds has only directives that name the caller.
\<close>

theorem update_operators_owner_only:
  "(d \<in> set ds \<and> sender \<noteq> directive_owner d \<longrightarrow>
      update_operators sender ds s = Inl FA2_NOT_OWNER
      \<and> invoke sender (Update_operators ds) s = (Some FA2_NOT_OWNER, [], s))
   \<and> (apply_operator_update sender ops d = Inr ops' \<longrightarrow> sender = directive_owner d)
   \<and> (update_operators sender ds s = Inr r \<longrightarrow> (\<forall>d \<in> set ds. directive_owner d = sender))"
proof -
  have one: "apply_operator_update sender ops d = Inr ops' \<longrightarrow> sender = directive_owner d"
    by (cases d) (auto split: if_splits)
  have fails: "update_operators sender ds s = Inl FA2_NOT_OWNER"
    if "x \<in> set ds" "sender \<noteq> directive_owner x" for x
    using fold_left_not_owner [OF that] by (simp add: update_operators_def)
  have all: "update_operators sender ds s = Inr r \<longrightarrow> (\<forall>x \<in> set ds. directive_owner x = sender)"
  proof (intro impI ballI)
    fix x
    assume ok: "update_operators sender ds s = Inr r" and x: "x \<in> set ds"
    show "directive_owner x = sender"
    proof (rule ccontr)
      assume "directive_owner x \<noteq> sender"
      then have "sender \<noteq> directive_owner x" by simp
      from fails [OF x this] ok show False by simp
    qed
  qed
  have "d \<in> set ds \<and> sender \<noteq> directive_owner d \<longrightarrow>
      update_operators sender ds s = Inl FA2_NOT_OWNER
      \<and> invoke sender (Update_operators ds) s = (Some FA2_NOT_OWNER, [], s)"
    using fails [of d] by (simp add: invoke_def)
  with one all show ?thesis by blast
qed

theorem update_operators_owner_only_witness:
  "invoke ''B''
     (Update_operators
        [Add_operator \<lparr>op_owner = ''B'', op_operator = ''C'', op_token_id = 0\<rparr>,
         Remove_operator \<lparr>op_owner = ''A'', op_operator = ''C'', op_token_id = 0\<rparr>])
     one_token_storage
   = (Some FA2_NOT_OWNER, [], one_token_storage)
   \<and> apply_operator_update ''A'' fmempty
        (Add_operator \<lparr>op_owner = ''A'', op_operator = ''C'', op_token_id = 0\<rparr>)
     = Inr (fmupd (''A'', (''C'', 0)) () fmempty)
   \<and> update_operators ''A''
        [Add_operator \<lparr>op_owner = ''A'', op_operator = ''C'', op_token_id = 0\<rparr>] one_token_storage
     = Inr ([], one_token_storage\<lparr>operators := fmupd (''A'', (''C'', 0)) () fmempty\<rparr>)"
proof -
  let ?add = "Add_operator \<lparr>op_owner = ''B'', op_operator = ''C'', op_token_id = 0\<rparr>"
  let ?rem = "Remove_operator \<lparr>op_owner = ''A'', op_operator = ''C'', op_token_id = 0\<rparr>"
  let ?addA = "Add_operator \<lparr>op_owner = ''A'', op_operator = ''C'', op_token_id = 0\<rparr>"
  have h: "?rem \<in> set [?add, ?rem] \<and> ''B'' \<noteq> directive_owner ?rem" by simp
  have a: "apply_operator_update ''A'' fmempty ?addA = Inr (fmupd (''A'', (''C'', 0)) () fmempty)"
    by (simp add: Big_map_update_def)
  have u: "update_operators ''A'' [?addA] one_token_storage
     = Inr ([], one_token_storage\<lparr>operators := fmupd (''A'', (''C'', 0)) () fmempty\<rparr>)"
    by (simp add: update_operators_def Big_map_update_def one_token_storage_def)
  from h a u
    update_operators_owner_only [where d = ?rem and ds = "[?add, ?rem]" and sender = "''B''"
      and s = one_token_storage]
    update_operators_owner_only [where d = ?addA and ds = "[?addA]" and sender = "''A''"
      and s = one_token_storage and ops = fmempty]
  show ?thesis by simp
qed

text \<open>
  C9, as amended. After an Add_operator and a Remove_operator for \<open>(o, p, t)\<close>, both
  issued by \<open>o\<close>, in one call or in two consecutive calls, the operator store is the
  store before the add without the entry for \<open>(o, p, t)\<close>: the entry is absent, and the
  store is the one before the add whenever the entry was absent then. Each directive
  applied twice gives what it gives applied once.
\<close>

theorem add_then_remove_operator:
  "update_operators ow
     [Add_operator \<lparr>op_owner = ow, op_operator = p, op_token_id = t\<rparr>,
      Remove_operator \<lparr>op_owner = ow, op_operator = p, op_token_id = t\<rparr>] s
     = Inr ([], s\<lparr>operators := fmdrop (ow, (p, t)) (operators s)\<rparr>)
   \<and> (update_operators ow [Add_operator \<lparr>op_owner = ow, op_operator = p, op_token_id = t\<rparr>] s
        = Inr ([], s\<lparr>operators := fmupd (ow, (p, t)) () (operators s)\<rparr>)
      \<and> update_operators ow [Remove_operator \<lparr>op_owner = ow, op_operator = p, op_token_id = t\<rparr>]
           (s\<lparr>operators := fmupd (ow, (p, t)) () (operators s)\<rparr>)
        = Inr ([], s\<lparr>operators := fmdrop (ow, (p, t)) (operators s)\<rparr>))
   \<and> \<not> Big_map_mem (ow, (p, t)) (fmdrop (ow, (p, t)) (operators s))
   \<and> (\<not> Big_map_mem (ow, (p, t)) (operators s) \<longrightarrow>
        fmdrop (ow, (p, t)) (operators s) = operators s)
   \<and> fold_left (\<lambda>acc d. apply_operator_update ow acc d) ops
        [Add_operator \<lparr>op_owner = ow, op_operator = p, op_token_id = t\<rparr>,
         Add_operator \<lparr>op_owner = ow, op_operator = p, op_token_id = t\<rparr>]
     = fold_left (\<lambda>acc d. apply_operator_update ow acc d) ops
        [Add_operator \<lparr>op_owner = ow, op_operator = p, op_token_id = t\<rparr>]
   \<and> fold_left (\<lambda>acc d. apply_operator_update ow acc d) ops
        [Remove_operator \<lparr>op_owner = ow, op_operator = p, op_token_id = t\<rparr>,
         Remove_operator \<lparr>op_owner = ow, op_operator = p, op_token_id = t\<rparr>]
     = fold_left (\<lambda>acc d. apply_operator_update ow acc d) ops
        [Remove_operator \<lparr>op_owner = ow, op_operator = p, op_token_id = t\<rparr>]"
proof -
  have idle: "\<not> Big_map_mem (ow, (p, t)) (operators s) \<longrightarrow>
        fmdrop (ow, (p, t)) (operators s) = operators s"
    unfolding Big_map_mem_def by (metis fmdrop_idle fmdom_notI)
  have gone: "\<not> Big_map_mem (ow, (p, t)) (fmdrop (ow, (p, t)) (operators s))"
    by (simp add: Big_map_mem_def)
  from idle gone show ?thesis
    by (simp add: update_operators_def Big_map_update_def Big_map_remove_def
          fmdrop_fmupd_same)
qed

theorem add_then_remove_operator_witness:
  "\<not> Big_map_mem (''A'', (''B'', 0)) (operators one_token_storage)
   \<and> update_operators ''A''
     [Add_operator \<lparr>op_owner = ''A'', op_operator = ''B'', op_token_id = 0\<rparr>,
      Remove_operator \<lparr>op_owner = ''A'', op_operator = ''B'', op_token_id = 0\<rparr>] one_token_storage
     = Inr ([], one_token_storage)"
proof -
  have h: "\<not> Big_map_mem (''A'', (''B'', 0)) (operators one_token_storage)"
    by (simp add: Big_map_mem_def one_token_storage_def)
  from h add_then_remove_operator [of "''A''" "''B''" 0 one_token_storage]
  show ?thesis by simp
qed

text \<open>
  C9 as stated takes the value before the add to be "absent" in every storage. When the
  entry is present before the add, it is absent after the remove.
\<close>

theorem add_then_remove_counterexample:
  "Big_map_mem (''A'', (''B'', 0))
     (operators (one_token_storage\<lparr>operators := fmupd (''A'', (''B'', 0)) () fmempty\<rparr>))
   \<and> update_operators ''A''
     [Add_operator \<lparr>op_owner = ''A'', op_operator = ''B'', op_token_id = 0\<rparr>,
      Remove_operator \<lparr>op_owner = ''A'', op_operator = ''B'', op_token_id = 0\<rparr>]
     (one_token_storage\<lparr>operators := fmupd (''A'', (''B'', 0)) () fmempty\<rparr>)
     = Inr ([], one_token_storage\<lparr>operators := fmempty\<rparr>)
   \<and> \<not> Big_map_mem (''A'', (''B'', 0)) (operators (one_token_storage\<lparr>operators := fmempty\<rparr>))"
  by (simp add: update_operators_def Big_map_update_def Big_map_remove_def Big_map_mem_def
        fmdrop_fmupd_same)

subsection \<open>Balance_of\<close>

text \<open>
  C7. A Balance_of call returns the storage it was given and emits exactly one operation,
  the delivery of the responses to the callback. The responses are as many as the
  requests, and the i-th response pairs the i-th request with the ledger's quantity for
  its (owner, token-id), 0 when the ledger has no entry.
\<close>

theorem balance_of_responses:
  "snd (balance_of param s) = s
   \<and> invoke sender (Balance_of param) s = (None, balance_of param s)
   \<and> length (fst (balance_of param s)) = 1
   \<and> (\<exists>responses.
        fst (balance_of param s) = [Transaction responses 0 (callback param)]
        \<and> length responses = length (requests param)
        \<and> (\<forall>i < length (requests param).
              request (responses ! i) = requests param ! i
              \<and> balance (responses ! i) =
                  (case fmlookup (ledger s)
                          (req_owner (requests param ! i), req_token_id (requests param ! i)) of
                     None \<Rightarrow> 0 | Some q \<Rightarrow> q)))"
  by (simp add: balance_of_def invoke_def Let_def nat_or_zero_def Big_map_find_opt_def)

theorem balance_of_responses_witness:
  "balance_of
     \<lparr>requests = [\<lparr>req_owner = ''A'', req_token_id = 0\<rparr>, \<lparr>req_owner = ''B'', req_token_id = 0\<rparr>],
      callback = ''K''\<rparr>
     one_token_storage
   = ([Transaction
         [\<lparr>request = \<lparr>req_owner = ''A'', req_token_id = 0\<rparr>, balance = 1\<rparr>,
          \<lparr>request = \<lparr>req_owner = ''B'', req_token_id = 0\<rparr>, balance = 0\<rparr>]
         0 ''K''],
      one_token_storage)"
proof -
  let ?p = "\<lparr>requests = [\<lparr>req_owner = ''A'', req_token_id = 0\<rparr>, \<lparr>req_owner = ''B'', req_token_id = 0\<rparr>],
      callback = ''K''\<rparr>"
  from balance_of_responses [of ?p one_token_storage "''A''"]
  obtain responses where
    ops: "fst (balance_of ?p one_token_storage) = [Transaction responses 0 (callback ?p)]"
    and len: "length responses = length (requests ?p)"
    and each: "\<forall>i < length (requests ?p).
              request (responses ! i) = requests ?p ! i
              \<and> balance (responses ! i) =
                  (case fmlookup (ledger one_token_storage)
                          (req_owner (requests ?p ! i), req_token_id (requests ?p ! i)) of
                     None \<Rightarrow> 0 | Some q \<Rightarrow> q)"
    and st: "snd (balance_of ?p one_token_storage) = one_token_storage"
    by blast
  from len obtain r0 r1 where rs: "responses = [r0, r1]"
    by (cases responses; cases "tl responses"; auto)
  from each [rule_format, of 0] each [rule_format, of 1]
  have "r0 = \<lparr>request = \<lparr>req_owner = ''A'', req_token_id = 0\<rparr>, balance = 1\<rparr>"
    and "r1 = \<lparr>request = \<lparr>req_owner = ''B'', req_token_id = 0\<rparr>, balance = 0\<rparr>"
    by (simp_all add: rs one_token_storage_def)
  with ops st rs show ?thesis by (simp add: prod_eq_iff)
qed

subsection \<open>Order of processing\<close>

text \<open>
  C8. A Transfer call processes its triples in the order given, the groups in order and
  the triples of each group in order: its result is that of \<open>run_triples\<close> on
  \<open>triples\<close>, and the last of a list of triples is checked and applied on the storage
  that the triples before it produced.
\<close>

theorem transfer_in_order:
  "transfer sender params s =
     (case run_triples sender s (triples params) of
        Inl e \<Rightarrow> Inl e
      | Inr s' \<Rightarrow> Inr ([], s'))
   \<and> run_triples sender s (xs @ [(f, tx)]) =
     (case run_triples sender s xs of
        Inl e \<Rightarrow> Inl e
      | Inr s1 \<Rightarrow> do_transfer sender s1 f tx)"
  by (simp add: transfer_run_triples run_triples_append split: sum.splits)

text \<open>
  An instance: \<open>B\<close> holds nothing before the call, and the transfer out of \<open>B\<close> in the
  second group succeeds on what the first group credited.
\<close>

lemma later_triple_sees_earlier:
  "transfer ''A''
     [\<lparr>from_addr = ''A'', txs = [\<lparr>to_addr = ''B'', tx_token_id = 0, amount = 1\<rparr>]\<rparr>,
      \<lparr>from_addr = ''B'', txs = [\<lparr>to_addr = ''C'', tx_token_id = 0, amount = 1\<rparr>]\<rparr>]
     (one_token_storage\<lparr>operators := fmupd (''B'', (''A'', 0)) () fmempty\<rparr>)
   = Inr ([], one_token_storage\<lparr>operators := fmupd (''B'', (''A'', 0)) () fmempty,
                               ledger := fmupd (''C'', 0) 1 fmempty\<rparr>)"
  by (simp add: transfer_def apply_txs_def do_transfer_def one_token_storage_def
        Big_map_find_opt_def Big_map_update_def Big_map_remove_def Big_map_mem_def
        nat_or_zero_def fmdrop_fmupd_same)

subsection \<open>Frames\<close>

text \<open>
  C10. A Transfer call that succeeds changes no field of the storage but the ledger; an
  Update_operators call that succeeds changes no field but the operators; a Balance_of
  call changes nothing.
\<close>

theorem entrypoint_frames:
  "(transfer sender params s = Inr (ops, s') \<longrightarrow>
      operators s' = operators s \<and> token_metadata s' = token_metadata s
      \<and> next_token_id s' = next_token_id s)
   \<and> (update_operators sender ds s = Inr (ops, s') \<longrightarrow>
      ledger s' = ledger s \<and> token_metadata s' = token_metadata s
      \<and> next_token_id s' = next_token_id s)
   \<and> snd (balance_of bp s) = s"
proof -
  have "transfer sender params s = Inr (ops, s') \<longrightarrow>
      operators s' = operators s \<and> token_metadata s' = token_metadata s
      \<and> next_token_id s' = next_token_id s"
    by (auto simp: transfer_run_triples split: sum.splits dest: run_triples_frame)
  moreover have "update_operators sender ds s = Inr (ops, s') \<longrightarrow>
      ledger s' = ledger s \<and> token_metadata s' = token_metadata s
      \<and> next_token_id s' = next_token_id s"
    by (auto simp: update_operators_def split: sum.splits)
  moreover have "snd (balance_of bp s) = s"
    by (simp add: balance_of_def Let_def)
  ultimately show ?thesis by blast
qed

theorem entrypoint_frames_witness:
  "transfer ''A''
     [\<lparr>from_addr = ''A'', txs = [\<lparr>to_addr = ''B'', tx_token_id = 0, amount = 1\<rparr>]\<rparr>]
     one_token_storage
   = Inr ([], one_token_storage\<lparr>ledger := fmupd (''B'', 0) 1 fmempty\<rparr>)
   \<and> operators (one_token_storage\<lparr>ledger := fmupd (''B'', 0) 1 fmempty\<rparr>)
     = operators one_token_storage
   \<and> update_operators ''A''
       [Add_operator \<lparr>op_owner = ''A'', op_operator = ''B'', op_token_id = 0\<rparr>] one_token_storage
     = Inr ([], one_token_storage\<lparr>operators := fmupd (''A'', (''B'', 0)) () fmempty\<rparr>)
   \<and> ledger (one_token_storage\<lparr>operators := fmupd (''A'', (''B'', 0)) () fmempty\<rparr>)
     = ledger one_token_storage"
proof -
  let ?ps = "[\<lparr>from_addr = ''A'', txs = [\<lparr>to_addr = ''B'', tx_token_id = 0, amount = 1\<rparr>]\<rparr>]"
  let ?s1 = "one_token_storage\<lparr>ledger := fmupd (''B'', 0) 1 fmempty\<rparr>"
  let ?ds = "[Add_operator \<lparr>op_owner = ''A'', op_operator = ''B'', op_token_id = 0\<rparr>]"
  let ?s2 = "one_token_storage\<lparr>operators := fmupd (''A'', (''B'', 0)) () fmempty\<rparr>"
  have t: "transfer ''A'' ?ps one_token_storage = Inr ([], ?s1)"
    by (simp add: transfer_def apply_txs_def do_transfer_def one_token_storage_def
          Big_map_find_opt_def Big_map_update_def Big_map_remove_def nat_or_zero_def
          fmdrop_fmupd_same)
  have u: "update_operators ''A'' ?ds one_token_storage = Inr ([], ?s2)"
    by (simp add: update_operators_def Big_map_update_def one_token_storage_def)
  from t u
    entrypoint_frames [where sender = "''A''" and params = ?ps and s = one_token_storage
      and ops = "[]" and s' = ?s1 and ds = "[]"]
    entrypoint_frames [where sender = "''A''" and ds = ?ds and s = one_token_storage
      and ops = "[]" and s' = ?s2 and params = "[]"]
  show ?thesis by simp
qed

end
